theory Spec2Isabelle
  imports Complex_Main "HOL-Library.AList"
begin

section \<open>JavaScript objects and numbers\<close>

text \<open>
  A plain JavaScript object with string keys is an association list in insertion order.
  Reading a property is \<open>map_of\<close>; the assignment \<^verbatim>\<open>obj[k] = v\<close> is \<open>AList.update\<close>,
  which overwrites in place when the key exists and appends otherwise;
  \<^verbatim>\<open>Object.keys(obj)\<close> lists every key once. Only own properties are modelled
  (no prototype chain). JavaScript enumerates keys that look like array indices before
  all others; the model keeps plain insertion order, and no statement below depends on
  the order of enumeration.

  Numbers that the program obtains by dividing two counts and compares with the
  literals 0.9, 0.8 and 0.3 are rationals. A double division is correctly rounded and
  rounding is monotone, so for counts below \<open>2^50\<close> the double comparison
  \<^verbatim>\<open>c / n >= 0.9\<close> has the same outcome as the rational one (the quotient
  \<open>9/10\<close> rounds to the very double the literal \<open>0.9\<close> denotes).
\<close>

type_synonym 'v js_object = "(string \<times> 'v) list"

definition object_keys :: "'v js_object \<Rightarrow> string list" where
  "object_keys obj = remdups (map fst obj)"

definition join_comma :: "string list \<Rightarrow> string" where
  "join_comma xs = foldr (\<lambda>x acc. if acc = [] then x else x @ '', '' @ acc) xs []"

text \<open>
  A number: a rational, \<^verbatim>\<open>Infinity\<close>, \<^verbatim>\<open>-Infinity\<close> or \<^verbatim>\<open>NaN\<close>, with the
  arithmetic of doubles on them (rounding and the sign of zero left out). A value that may
  be \<^verbatim>\<open>undefined\<close> is an option, \<open>None\<close> for \<^verbatim>\<open>undefined\<close>.
\<close>

datatype js_number = Num rat | PInf | NInf | NaN

fun addNum :: "js_number \<Rightarrow> js_number \<Rightarrow> js_number" where
  "addNum (Num a) (Num b) = Num (a + b)"
| "addNum (Num a) PInf = PInf"
| "addNum (Num a) NInf = NInf"
| "addNum PInf (Num b) = PInf"
| "addNum PInf PInf = PInf"
| "addNum NInf (Num b) = NInf"
| "addNum NInf NInf = NInf"
| "addNum _ _ = NaN"

text \<open>\<^verbatim>\<open>Math.min\<close> of two numbers: \<^verbatim>\<open>NaN\<close> when either is.\<close>

fun min2 :: "js_number \<Rightarrow> js_number \<Rightarrow> js_number" where
  "min2 (Num a) (Num b) = Num (min a b)"
| "min2 (Num a) PInf = Num a"
| "min2 PInf (Num b) = Num b"
| "min2 PInf PInf = PInf"
| "min2 NaN _ = NaN"
| "min2 _ NaN = NaN"
| "min2 NInf _ = NInf"
| "min2 _ NInf = NInf"

definition min3 :: "js_number \<Rightarrow> js_number \<Rightarrow> js_number \<Rightarrow> js_number" where
  "min3 a b c = min2 (min2 a b) c"

text \<open>Division by a count, and \<^verbatim>\<open>1 - x\<close>.\<close>

fun divideBy :: "js_number \<Rightarrow> nat \<Rightarrow> js_number" where
  "divideBy (Num a) k =
     (if k = 0 then (if a = 0 then NaN else if a > 0 then PInf else NInf)
      else Num (a / rat_of_nat k))"
| "divideBy PInf k = PInf"
| "divideBy NInf k = NInf"
| "divideBy NaN k = NaN"

fun oneMinus :: "js_number \<Rightarrow> js_number" where
  "oneMinus (Num a) = Num (1 - a)"
| "oneMinus PInf = NInf"
| "oneMinus NInf = PInf"
| "oneMinus NaN = NaN"

text \<open>
  \<^verbatim>\<open>a === b\<close> on values that may be \<^verbatim>\<open>undefined\<close> (\<open>None\<close>): \<^verbatim>\<open>NaN\<close> equals nothing.
\<close>

fun strictEq :: "js_number option \<Rightarrow> js_number option \<Rightarrow> bool" where
  "strictEq None None = True"
| "strictEq (Some NaN) _ = False"
| "strictEq _ (Some NaN) = False"
| "strictEq (Some a) (Some b) = (a = b)"
| "strictEq _ _ = False"

text \<open>\<^verbatim>\<open>x + y\<close> where \<open>x\<close> may be \<^verbatim>\<open>undefined\<close>: \<^verbatim>\<open>undefined + y\<close> is \<^verbatim>\<open>NaN\<close>.\<close>

definition plusUndef :: "js_number option \<Rightarrow> js_number \<Rightarrow> js_number" where
  "plusUndef x y = (case x of None \<Rightarrow> NaN | Some a \<Rightarrow> addNum a y)"

text \<open>Reading an array at a number: \<^verbatim>\<open>undefined\<close> outside the array.\<close>

definition elemAt :: "'a list \<Rightarrow> int \<Rightarrow> 'a option" where
  "elemAt xs k = (if 0 \<le> k \<and> k < int (length xs) then Some (xs ! nat k) else None)"

section \<open>PatternMiningService\<close>

subsection \<open>Tasks, traces and pattern nodes\<close>

text \<open>
  Property values are kept as text; only the keys of \<^verbatim>\<open>schema\<close> and \<^verbatim>\<open>values\<close>
  objects are ever read. \<open>None\<close> is a missing (\<^verbatim>\<open>undefined\<close>) property.
\<close>

type_synonym js_value = string

record io_part =
  io_schema :: "js_value js_object option"
  io_values :: "js_value js_object option"

record task =
  taskName :: string
  task_input :: "io_part option"
  task_output :: "io_part option"

record trace =
  executionSequence :: "task list"

datatype js_error = TypeError

text \<open>
  A node of the consensus sequence: a Task node carries \<^verbatim>\<open>frequency\<close> and the two schemas,
  a branch node (\<^verbatim>\<open>taskName: 'BRANCH'\<close>) carries \<^verbatim>\<open>options\<close> and \<^verbatim>\<open>frequencies\<close>.
\<close>

record pattern_node =
  node_position :: nat
  node_taskName :: string
  node_frequency :: "rat option"
  node_required :: bool
  node_inputSchema :: "js_value js_object option"
  node_outputSchema :: "js_value js_object option"
  node_options :: "string list option"
  node_frequencies :: "nat js_object option"

text \<open>The gap marker \<^verbatim>\<open>{ taskName: 'GAP', optional: true }\<close> that alignment inserts.\<close>

definition gap_task :: task where
  "gap_task = \<lparr>taskName = ''GAP'', task_input = None, task_output = None\<rparr>"

subsection \<open>taskSimilarity\<close>

text \<open>
  \<^verbatim>\<open>schemaSimilarity\<close>: 0 when a schema is missing, else the number of keys of the first
  that the second has, divided by the number of keys of either; \<^verbatim>\<open>0 / 0\<close> is \<^verbatim>\<open>NaN\<close>.
\<close>

definition schemaSimilarity :: "js_value js_object option \<Rightarrow> js_value js_object option \<Rightarrow> js_number" where
  "schemaSimilarity schema1 schema2 =
     (case (schema1, schema2) of
        (Some s1, Some s2) \<Rightarrow>
          (let keys1 = object_keys s1; keys2 = object_keys s2;
               intersection = filter (\<lambda>k. k \<in> set keys2) keys1;
               union = remdups (keys1 @ keys2)
           in divideBy (Num (rat_of_nat (length intersection))) (length union))
      | _ \<Rightarrow> Num 0)"

text \<open>
  Reading \<^verbatim>\<open>taskName\<close> of \<^verbatim>\<open>undefined\<close>, or \<^verbatim>\<open>schema\<close> of a missing \<^verbatim>\<open>input\<close> or
  \<^verbatim>\<open>output\<close>, throws.
\<close>

definition taskSimilarity :: "task option \<Rightarrow> task option \<Rightarrow> js_error + js_number" where
  "taskSimilarity task1 task2 =
     (case (task1, task2) of
        (Some t1, Some t2) \<Rightarrow>
          if taskName t1 = taskName t2 then Inr (Num 0)
          else
            (case (task_input t1, task_input t2, task_output t1, task_output t2) of
               (Some in1, Some in2, Some out1, Some out2) \<Rightarrow>
                 Inr (oneMinus (divideBy (addNum (schemaSimilarity (io_schema in1) (io_schema in2))
                                              (schemaSimilarity (io_schema out1) (io_schema out2))) 2))
             | _ \<Rightarrow> Inl TypeError)
      | _ \<Rightarrow> Inl TypeError)"

subsection \<open>alignTwoSequences\<close>

text \<open>
  The inner \<^verbatim>\<open>for (let j = 1; j <= n; j++)\<close> loop for the row \<open>i\<close>, over the remaining
  column indices, and the outer loop over the remaining row indices. All indices are
  within the matrix.
\<close>

fun fillColumns :: "task list \<Rightarrow> task list \<Rightarrow> nat \<Rightarrow> nat list \<Rightarrow> js_number list list \<Rightarrow> js_error + js_number list list" where
  "fillColumns seq1 seq2 i [] dtw = Inr dtw"
| "fillColumns seq1 seq2 i (j # js) dtw =
     (case taskSimilarity (elemAt seq1 (int i - 1)) (elemAt seq2 (int j - 1)) of
        Inl e \<Rightarrow> Inl e
      | Inr cost \<Rightarrow>
          fillColumns seq1 seq2 i js
            (dtw[i := (dtw ! i)[j := min3 (addNum (dtw ! (i - 1) ! j) (Num 1))
                                         (addNum (dtw ! i ! (j - 1)) (Num 1))
                                         (addNum (dtw ! (i - 1) ! (j - 1)) cost)]]))"

fun fillRows :: "task list \<Rightarrow> task list \<Rightarrow> nat list \<Rightarrow> js_number list list \<Rightarrow> js_error + js_number list list" where
  "fillRows seq1 seq2 [] dtw = Inr dtw"
| "fillRows seq1 seq2 (i # is) dtw =
     (case fillColumns seq1 seq2 i [1 ..< Suc (length seq2)] dtw of
        Inl e \<Rightarrow> Inl e
      | Inr dtw' \<Rightarrow> fillRows seq1 seq2 is dtw')"

text \<open>
  \<^verbatim>\<open>Array(m + 1).fill(null).map(() => Array(n + 1).fill(Infinity))\<close> with
  \<^verbatim>\<open>dtw[0][0] = 0\<close>, then the two loops.
\<close>

definition fillMatrix :: "task list \<Rightarrow> task list \<Rightarrow> js_error + js_number list list" where
  "fillMatrix seq1 seq2 =
     (let dtw = replicate (Suc (length seq1)) (replicate (Suc (length seq2)) PInf);
          dtw = dtw[0 := (dtw ! 0)[0 := Num 0]]
      in fillRows seq1 seq2 [1 ..< Suc (length seq1)] dtw)"

text \<open>\<^verbatim>\<open>dtw[i][j]\<close>: throws when the row \<^verbatim>\<open>dtw[i]\<close> is \<^verbatim>\<open>undefined\<close>.\<close>

definition entry :: "js_number list list \<Rightarrow> int \<Rightarrow> int \<Rightarrow> js_error + js_number option" where
  "entry dtw i j = (case elemAt dtw i of None \<Rightarrow> Inl TypeError | Some row \<Rightarrow> Inr (elemAt row j))"

text \<open>
  The two tests of the backtracking loop:
  \<^verbatim>\<open>i > 0 && j > 0 && dtw[i][j] === dtw[i-1][j-1] + this.taskSimilarity(seq1[i-1], seq2[j-1])\<close> and
  \<^verbatim>\<open>i > 0 && dtw[i][j] === dtw[i-1][j] + 1\<close>.
\<close>

definition diagonalTest :: "task list \<Rightarrow> task list \<Rightarrow> js_number list list \<Rightarrow> int \<Rightarrow> int \<Rightarrow> js_error + bool" where
  "diagonalTest seq1 seq2 dtw i j =
     (if i > 0 \<and> j > 0 then
        (case (entry dtw i j, entry dtw (i - 1) (j - 1), taskSimilarity (elemAt seq1 (i - 1)) (elemAt seq2 (j - 1))) of
           (Inr here, Inr diag, Inr cost) \<Rightarrow> Inr (strictEq here (Some (plusUndef diag cost)))
         | _ \<Rightarrow> Inl TypeError)
      else Inr False)"

definition deletionTest :: "js_number list list \<Rightarrow> int \<Rightarrow> int \<Rightarrow> js_error + bool" where
  "deletionTest dtw i j =
     (if i > 0 then
        (case (entry dtw i j, entry dtw (i - 1) j) of
           (Inr here, Inr up) \<Rightarrow> Inr (strictEq here (Some (plusUndef up (Num 1))))
         | _ \<Rightarrow> Inl TypeError)
      else Inr False)"

text \<open>
  The loop \<^verbatim>\<open>while (i > 0 || j > 0)\<close>; \<^verbatim>\<open>aligned.unshift(x)\<close> puts \<open>x\<close> in front.
  The result \<open>None\<close> stands for a loop that never ends. An entry of \<open>aligned\<close> is a task,
  the gap marker, or \<^verbatim>\<open>undefined\<close> (\<open>None\<close>) from \<^verbatim>\<open>seq2[j - 1]\<close> outside \<open>seq2\<close>.
  Each test compares a matrix entry with a sum of the very form the entry was computed
  from, so a test that succeeds here for that reason succeeds on doubles as well.
\<close>

partial_function (option) backtrack ::
  "task list \<Rightarrow> task list \<Rightarrow> js_number list list \<Rightarrow> int \<Rightarrow> int \<Rightarrow> task option list
   \<Rightarrow> (js_error + task option list) option" where
  "backtrack seq1 seq2 dtw i j aligned =
     (if i > 0 \<or> j > 0 then
        (case diagonalTest seq1 seq2 dtw i j of
           Inl e \<Rightarrow> Some (Inl e)
         | Inr diagonal \<Rightarrow>
             if diagonal
             then backtrack seq1 seq2 dtw (i - 1) (j - 1) (elemAt seq2 (j - 1) # aligned)
             else
               (case deletionTest dtw i j of
                  Inl e \<Rightarrow> Some (Inl e)
                | Inr deletion \<Rightarrow>
                    if deletion
                    then backtrack seq1 seq2 dtw (i - 1) j (Some gap_task # aligned)
                    else backtrack seq1 seq2 dtw i (j - 1) (elemAt seq2 (j - 1) # aligned)))
      else Some (Inr aligned))"

declare backtrack.simps [code]

record alignment =
  aligned :: "task option list"
  score :: js_number

text \<open>\<^verbatim>\<open>score: 1 - (dtw[m][n] / Math.max(m, n))\<close>\<close>

definition alignTwoSequences :: "task list \<Rightarrow> task list \<Rightarrow> (js_error + alignment) option" where
  "alignTwoSequences seq1 seq2 =
     (case fillMatrix seq1 seq2 of
        Inl e \<Rightarrow> Some (Inl e)
      | Inr dtw \<Rightarrow>
          (case backtrack seq1 seq2 dtw (int (length seq1)) (int (length seq2)) [] of
             None \<Rightarrow> None
           | Some (Inl e) \<Rightarrow> Some (Inl e)
           | Some (Inr al) \<Rightarrow>
               Some (Inr \<lparr>aligned = al,
                          score = oneMinus (divideBy (dtw ! length seq1 ! length seq2)
                                             (max (length seq1) (length seq2)))\<rparr>)))"

subsection \<open>alignExecutionSequences\<close>




subsection \<open>extractConsensusPattern\<close>

text \<open>
  \<^verbatim>\<open>sequences.map(seq => seq[position])\<close>: an index past the end of a sequence gives
  \<^verbatim>\<open>undefined\<close>, here \<open>None\<close>.
\<close>

definition tasksAtPosition :: "task list list \<Rightarrow> nat \<Rightarrow> task option list" where
  "tasksAtPosition sequences position =
     map (\<lambda>seq. if position < length seq then Some (seq ! position) else None) sequences"

text \<open>
  The counting \<^verbatim>\<open>forEach\<close>; reading \<^verbatim>\<open>task.taskName\<close> of \<^verbatim>\<open>undefined\<close> throws.
\<close>

fun countTasks :: "task option list \<Rightarrow> nat js_object \<times> nat \<Rightarrow> js_error + (nat js_object \<times> nat)" where
  "countTasks [] acc = Inr acc"
| "countTasks (None # ts) acc = Inl TypeError"
| "countTasks (Some t # ts) (taskCounts, totalNonGap) =
     (if taskName t \<noteq> ''GAP''
      then countTasks ts
             (AList.update (taskName t)
                ((case map_of taskCounts (taskName t) of None \<Rightarrow> 0 | Some c \<Rightarrow> c) + 1) taskCounts,
              totalNonGap + 1)
      else countTasks ts (taskCounts, totalNonGap))"

text \<open>
  \<^verbatim>\<open>Object.entries(taskCounts).forEach(([taskName, count]) => { if (count > maxCount)
  { maxCount = count; consensusTask = taskName } })\<close>
\<close>

fun mostCommon :: "nat js_object \<Rightarrow> string option \<times> nat \<Rightarrow> string option \<times> nat" where
  "mostCommon [] acc = acc"
| "mostCommon ((name, count) # entries) (consensusTask, maxCount) =
     (if count > maxCount then mostCommon entries (Some name, count)
      else mostCommon entries (consensusTask, maxCount))"

text \<open>The two object literals pushed on \<^verbatim>\<open>consensusPattern\<close>.\<close>

definition taskNode :: "nat \<Rightarrow> string \<Rightarrow> rat \<Rightarrow> io_part \<Rightarrow> io_part \<Rightarrow> pattern_node" where
  "taskNode position consensusTask frequency inp out =
     \<lparr>node_position = position,
      node_taskName = consensusTask,
      node_frequency = Some frequency,
      node_required = (frequency \<ge> 9 / 10),
      node_inputSchema = io_schema inp,
      node_outputSchema = io_schema out,
      node_options = None,
      node_frequencies = None\<rparr>"

definition branchNode :: "nat \<Rightarrow> nat js_object \<Rightarrow> pattern_node" where
  "branchNode position taskCounts =
     \<lparr>node_position = position,
      node_taskName = ''BRANCH'',
      node_frequency = None,
      node_required = False,
      node_inputSchema = None,
      node_outputSchema = None,
      node_options = Some (object_keys taskCounts),
      node_frequencies = Some taskCounts\<rparr>"

text \<open>
  \<^verbatim>\<open>tasksAtPosition.find(t => t.taskName === consensusTask)\<close>, then
  \<^verbatim>\<open>representativeTask.input.schema\<close> and \<^verbatim>\<open>representativeTask.output.schema\<close>, which
  throw when the task has no \<^verbatim>\<open>input\<close> or no \<^verbatim>\<open>output\<close>.
\<close>

definition representative :: "task option list \<Rightarrow> string \<Rightarrow> js_error + (io_part \<times> io_part)" where
  "representative tasks consensusTask =
     (case List.find (\<lambda>t. map_option taskName t = Some consensusTask) tasks of
        Some (Some representativeTask) \<Rightarrow>
          (case (task_input representativeTask, task_output representativeTask) of
             (Some inp, Some out) \<Rightarrow> Inr (inp, out)
           | _ \<Rightarrow> Inl TypeError)
      | _ \<Rightarrow> Inl TypeError)"

text \<open>
  The body of the \<^verbatim>\<open>for (position ...)\<close> loop: the node pushed for one position.
  \<open>n\<close> is \<^verbatim>\<open>sequences.length\<close>. In \<^verbatim>\<open>consensusTask && ...\<close> the value \<^verbatim>\<open>null\<close>
  and the empty name are falsy.
\<close>

definition consensusNode :: "rat \<Rightarrow> nat \<Rightarrow> task option list \<Rightarrow> nat \<Rightarrow> js_error + pattern_node" where
  "consensusNode consensusThreshold n tasks position =
     (case countTasks tasks ([], 0) of
        Inl e \<Rightarrow> Inl e
      | Inr (taskCounts, totalNonGap) \<Rightarrow>
          (case mostCommon taskCounts (None, 0) of
             (None, maxCount) \<Rightarrow> Inr (branchNode position taskCounts)
           | (Some consensusTask, maxCount) \<Rightarrow>
               if consensusTask \<noteq> []
                  \<and> rat_of_nat maxCount / rat_of_nat totalNonGap \<ge> consensusThreshold
               then
                 (case representative tasks consensusTask of
                    Inl e \<Rightarrow> Inl e
                  | Inr (inp, out) \<Rightarrow>
                      Inr (taskNode position consensusTask
                             (rat_of_nat maxCount / rat_of_nat n) inp out))
               else Inr (branchNode position taskCounts)))"

text \<open>The loop over the positions \<open>0 ..< sequences[0].length\<close>, stopping at the first throw.\<close>

fun consensusLoop :: "rat \<Rightarrow> task list list \<Rightarrow> nat list \<Rightarrow> js_error + pattern_node list" where
  "consensusLoop consensusThreshold sequences [] = Inr []"
| "consensusLoop consensusThreshold sequences (position # positions) =
     (case consensusNode consensusThreshold (length sequences)
             (tasksAtPosition sequences position) position of
        Inl e \<Rightarrow> Inl e
      | Inr node \<Rightarrow>
          (case consensusLoop consensusThreshold sequences positions of
             Inl e \<Rightarrow> Inl e
           | Inr nodes \<Rightarrow> Inr (node # nodes)))"

text \<open>\<^verbatim>\<open>sequences[0].length\<close> throws when there is no sequence.\<close>

definition extractConsensusPattern :: "rat \<Rightarrow> task list list \<Rightarrow> js_error + pattern_node list" where
  "extractConsensusPattern consensusThreshold sequences =
     (case sequences of
        [] \<Rightarrow> Inl TypeError
      | first # _ \<Rightarrow> consensusLoop consensusThreshold sequences [0 ..< length first])"

section \<open>WorkflowSynthesizer\<close>

subsection \<open>The mined pattern\<close>

text \<open>
  A guard condition is a string or an object with \<^verbatim>\<open>field\<close>, \<^verbatim>\<open>operator\<close> and
  \<^verbatim>\<open>value\<close>; \<^verbatim>\<open>guardConditions\<close> holds, per branch position, an object from branch
  name to condition. The miner of guard conditions is not part of the sources at hand, so
  \<^verbatim>\<open>guardConditions\<close> is an input.
\<close>

datatype guard_cond =
    CondString string
  | CondObject (cond_field: "string option") (cond_operator: "string option") (cond_value: "string option")

record guard =
  guard_position :: nat
  guard_conditions :: "guard_cond js_object"

text \<open>
  The mined pattern, as far as the synthesizer reads it for the states, the contract and
  the verification. (\<^verbatim>\<open>variableRegions\<close> only feeds the \<^verbatim>\<open>input\<close> mapping of a task
  state, which is left out.) A pattern is taken as the miner builds it, with a string
  \<^verbatim>\<open>normalizedQuery\<close> and an array \<^verbatim>\<open>variableRegions\<close>, so that
  \<^verbatim>\<open>generateWorkflowName\<close> and \<^verbatim>\<open>generateInputMapping\<close> do not throw.
\<close>

record pattern =
  consensusSequence :: "pattern_node list"
  guardConditions :: "guard list"
  pattern_confidence :: rat

subsection \<open>The synthesized workflow\<close>

text \<open>
  A state's \<^verbatim>\<open>goto\<close> is a string or an array of strings
  (\<^verbatim>\<open>Array.isArray(state.goto)\<close>).
\<close>

datatype goto_target = GotoName string | GotoList "string list"

record choice =
  choice_condition :: string
  choice_goto :: string

text \<open>
  A state object. Fields a state does not have are \<open>None\<close>. The fields
  \<^verbatim>\<open>validateContract\<close>, \<^verbatim>\<open>actionIdentifier\<close>, \<^verbatim>\<open>input\<close> and \<^verbatim>\<open>output\<close>
  are written by \<^verbatim>\<open>generateStates\<close> and read by nothing in the synthesizer; they are
  left out.
\<close>

record wf_state =
  st_type :: string
  st_goto :: "goto_target option"
  st_choices :: "choice list option"
  st_default :: "string option"
  st_required :: "bool option"
  st_errorHandler :: "string option"

record contract =
  contract_required :: "string list"
  contract_optional :: "string list"

record workflow =
  wf_confidence :: rat
  wf_startAt :: string
  wf_states :: "wf_state js_object"
  wf_inputContract :: contract
  wf_traceCount :: nat

subsection \<open>generateStates\<close>

definition truthy :: "string option \<Rightarrow> bool" where
  "truthy s = (s \<noteq> None \<and> s \<noteq> Some [])"

definition formatCondition :: "guard_cond \<Rightarrow> string" where
  "formatCondition condition =
     (case condition of
        CondString s \<Rightarrow> s
      | CondObject f operator v \<Rightarrow>
          if truthy f \<and> truthy operator \<and> truthy v
          then ''${'' @ the f @ ''} '' @ the operator @ '' \"'' @ the v @ ''\"''
          else ''true'')"

definition generateChoices :: "pattern \<Rightarrow> nat \<Rightarrow> choice list" where
  "generateChoices p index =
     (case List.find (\<lambda>g. guard_position g = index) (guardConditions p) of
        None \<Rightarrow> []
      | Some guards \<Rightarrow>
          map (\<lambda>(branch, condition).
                 \<lparr>choice_condition = formatCondition condition, choice_goto = branch\<rparr>)
              (guard_conditions guards))"

text \<open>Decimal digits of an index, for the template \<^verbatim>\<open>`choice_${index}`\<close>.\<close>

fun string_of_nat :: "nat \<Rightarrow> string" where
  "string_of_nat n =
     (if n < 10 then [''0123456789'' ! n]
      else string_of_nat (n div 10) @ [''0123456789'' ! (n mod 10)])"

declare string_of_nat.simps [simp del]

text \<open>\<^verbatim>\<open>x?.taskName || 'end'\<close>\<close>

definition taskName_or_end :: "pattern_node option \<Rightarrow> string" where
  "taskName_or_end node =
     (case node of
        None \<Rightarrow> ''end''
      | Some nd \<Rightarrow> if node_taskName nd = [] then ''end'' else node_taskName nd)"

definition validationState :: "pattern \<Rightarrow> wf_state" where
  "validationState p =
     \<lparr>st_type = ''validation'',
      st_goto = Some (GotoName (taskName_or_end
                  (case consensusSequence p of [] \<Rightarrow> None | first # _ \<Rightarrow> Some first))),
      st_choices = None, st_default = None, st_required = None, st_errorHandler = None\<rparr>"

definition choiceState :: "pattern \<Rightarrow> nat \<Rightarrow> pattern_node option \<Rightarrow> wf_state" where
  "choiceState p index nextNode =
     \<lparr>st_type = ''choice'',
      st_goto = None,
      st_choices = Some (generateChoices p index),
      st_default = Some (taskName_or_end nextNode),
      st_required = None, st_errorHandler = None\<rparr>"

text \<open>
  A comparison with a missing \<^verbatim>\<open>frequency\<close> (\<^verbatim>\<open>undefined > 0.9\<close>,
  \<^verbatim>\<open>undefined < 0.9\<close>) is false.
\<close>

definition taskState :: "pattern_node \<Rightarrow> nat \<Rightarrow> pattern_node option \<Rightarrow> wf_state" where
  "taskState node index nextNode =
     \<lparr>st_type = ''task'',
      st_goto = Some (GotoName
        (case nextNode of
           Some nx \<Rightarrow> if node_taskName nx = ''BRANCH'' then ''choice_'' @ string_of_nat (index + 1)
                      else node_taskName nx
         | None \<Rightarrow> ''end'')),
      st_choices = None,
      st_default = None,
      st_required = Some (case node_frequency node of Some f \<Rightarrow> f > 9 / 10 | None \<Rightarrow> False),
      st_errorHandler = Some (case node_frequency node of
                                Some f \<Rightarrow> if f < 9 / 10 then ''skip'' else ''fail''
                              | None \<Rightarrow> ''fail'')\<rparr>"

definition endState :: wf_state where
  "endState =
     \<lparr>st_type = ''end'', st_goto = None, st_choices = None, st_default = None,
      st_required = None, st_errorHandler = None\<rparr>"

text \<open>
  \<^verbatim>\<open>pattern.consensusSequence.forEach((node, index) => ...)\<close>, on the rest of the sequence
  from \<open>index\<close> on; \<^verbatim>\<open>nextNode = pattern.consensusSequence[index + 1]\<close> is the head of
  what follows the node.
\<close>

fun statesLoop :: "pattern \<Rightarrow> pattern_node list \<Rightarrow> nat \<Rightarrow> wf_state js_object \<Rightarrow> wf_state js_object" where
  "statesLoop p [] index states = states"
| "statesLoop p (node # rest) index states =
     (let nextNode = (case rest of [] \<Rightarrow> None | nx # _ \<Rightarrow> Some nx)
      in if node_taskName node = ''BRANCH''
         then statesLoop p rest (index + 1)
                (AList.update (''choice_'' @ string_of_nat index) (choiceState p index nextNode) states)
         else statesLoop p rest (index + 1)
                (AList.update (node_taskName node) (taskState node index nextNode) states))"

definition generateStates :: "pattern \<Rightarrow> wf_state js_object" where
  "generateStates p =
     AList.update ''end'' endState
       (statesLoop p (consensusSequence p) 0 [(''input_validation'', validationState p)])"

subsection \<open>extractInputContract\<close>

text \<open>
  \<^verbatim>\<open>Object.keys(firstTask.input.values)\<close> under \<^verbatim>\<open>if (firstTask?.input?.values)\<close>:
  no keys when the trace is empty or the first task has no input values.
\<close>

definition firstInputFields :: "trace \<Rightarrow> string list" where
  "firstInputFields t =
     (case executionSequence t of
        [] \<Rightarrow> []
      | firstTask # _ \<Rightarrow>
          (case task_input firstTask of
             None \<Rightarrow> []
           | Some inp \<Rightarrow> (case io_values inp of None \<Rightarrow> [] | Some vs \<Rightarrow> object_keys vs)))"

text \<open>\<^verbatim>\<open>fieldFrequency[field] = (fieldFrequency[field] || 0) + 1\<close>\<close>

definition bump :: "string \<Rightarrow> nat js_object \<Rightarrow> nat js_object" where
  "bump field fieldFrequency =
     AList.update field ((case map_of fieldFrequency field of None \<Rightarrow> 0 | Some c \<Rightarrow> c) + 1) fieldFrequency"

definition countFields :: "trace list \<Rightarrow> nat js_object" where
  "countFields traces = fold (\<lambda>t fieldFrequency. fold bump (firstInputFields t) fieldFrequency) traces []"

text \<open>
  The classifying \<^verbatim>\<open>forEach\<close> over \<^verbatim>\<open>Object.entries(fieldFrequency)\<close>;
  \<open>n\<close> is \<^verbatim>\<open>traces.length\<close>. The \<^verbatim>\<open>schema\<close> part of the contract is not modelled.
\<close>

fun classifyFields :: "nat \<Rightarrow> nat js_object \<Rightarrow> contract \<Rightarrow> contract" where
  "classifyFields n [] c = c"
| "classifyFields n ((field, count) # entries) c =
     (let frequency = rat_of_nat count / rat_of_nat n
      in if frequency > 9 / 10
         then classifyFields n entries (c\<lparr>contract_required := contract_required c @ [field]\<rparr>)
         else if frequency > 3 / 10
         then classifyFields n entries (c\<lparr>contract_optional := contract_optional c @ [field]\<rparr>)
         else classifyFields n entries c)"

definition extractInputContract :: "trace list \<Rightarrow> contract" where
  "extractInputContract traces =
     classifyFields (length traces) (countFields traces)
       \<lparr>contract_required = [], contract_optional = []\<rparr>"

subsection \<open>checkReachability\<close>

text \<open>
  \<^verbatim>\<open>if (state?.goto) { Array.isArray(state.goto) ? queue.push(...state.goto)
  : queue.push(state.goto) }\<close>: an empty string is falsy, any array is truthy.
\<close>

definition goto_pushed :: "wf_state option \<Rightarrow> string list" where
  "goto_pushed st =
     (case st of
        None \<Rightarrow> []
      | Some s \<Rightarrow>
          (case st_goto s of
             None \<Rightarrow> []
           | Some (GotoName n) \<Rightarrow> if n = [] then [] else [n]
           | Some (GotoList ns) \<Rightarrow> ns))"

text \<open>\<^verbatim>\<open>if (state?.choices) state.choices.forEach(choice => queue.push(choice.goto))\<close>\<close>

definition choices_pushed :: "wf_state option \<Rightarrow> string list" where
  "choices_pushed st =
     (case st of
        None \<Rightarrow> []
      | Some s \<Rightarrow> (case st_choices s of None \<Rightarrow> [] | Some cs \<Rightarrow> map choice_goto cs))"

text \<open>Every name some state of the workflow can push on the queue.\<close>

definition targets :: "wf_state js_object \<Rightarrow> string set" where
  "targets sts = (\<Union>(k, s) \<in> set sts. set (goto_pushed (Some s)) \<union> set (choices_pushed (Some s)))"

text \<open>
  The \<^verbatim>\<open>while (queue.length > 0)\<close> loop; \<open>visited\<close> is the \<^verbatim>\<open>Set\<close>, kept as the
  list of its members in insertion order (a member is added only when absent).
\<close>

function bfs_loop :: "wf_state js_object \<Rightarrow> string list \<Rightarrow> string list \<Rightarrow> string list" where
  "bfs_loop sts [] visited = visited"
| "bfs_loop sts (current # queue) visited =
     (if current = [] \<or> current \<in> set visited then bfs_loop sts queue visited
      else bfs_loop sts
             (queue @ goto_pushed (map_of sts current) @ choices_pushed (map_of sts current))
             (visited @ [current]))"
  by pat_completeness auto

lemma pushed_in_targets:
  "set (goto_pushed (map_of sts k)) \<union> set (choices_pushed (map_of sts k)) \<subseteq> targets sts"
proof (cases "map_of sts k")
  case None
  then show ?thesis by (simp add: goto_pushed_def choices_pushed_def)
next
  case (Some s)
  then have "(k, s) \<in> set sts" by (rule map_of_SomeD)
  then have "set (goto_pushed (Some s)) \<union> set (choices_pushed (Some s)) \<subseteq> targets sts"
    unfolding targets_def by (intro subsetI UN_I [of "(k, s)"]) simp_all
  with Some show ?thesis by simp
qed

lemma finite_targets: "finite (targets sts)"
  unfolding targets_def by auto

lemma bfs_skip_measure:
  "card ((targets sts \<union> set queue) - set visited)
   \<le> card ((targets sts \<union> set (current # queue)) - set visited)"
  by (rule card_mono) (auto simp: finite_targets)

lemma bfs_visit_measure:
  assumes "current \<notin> set visited"
  shows "card ((targets sts \<union> set (queue @ goto_pushed (map_of sts current)
                 @ choices_pushed (map_of sts current))) - set (visited @ [current]))
         < card ((targets sts \<union> set (current # queue)) - set visited)"
proof -
  let ?old = "(targets sts \<union> set (current # queue)) - set visited"
  have fin: "finite ?old"
    by (auto simp: finite_targets)
  have "(targets sts \<union> set (queue @ goto_pushed (map_of sts current)
           @ choices_pushed (map_of sts current))) - set (visited @ [current])
        \<subseteq> ?old - {current}"
    using pushed_in_targets [of sts current] by auto
  then have "card ((targets sts \<union> set (queue @ goto_pushed (map_of sts current)
           @ choices_pushed (map_of sts current))) - set (visited @ [current]))
        \<le> card (?old - {current})"
    using fin by (intro card_mono) auto
  also have "\<dots> < card ?old"
    using assms fin by (intro card_Diff1_less) auto
  finally show ?thesis .
qed

lemma measures_pairI_less: "f x < f y \<Longrightarrow> (x, y) \<in> measures [f, g]"
  by simp

lemma measures_pairI_le: "f x \<le> f y \<Longrightarrow> g x < g y \<Longrightarrow> (x, y) \<in> measures [f, g]"
  by (cases "f x < f y") simp_all

termination bfs_loop
proof (relation "measures [\<lambda>(sts, queue, visited). card ((targets sts \<union> set queue) - set visited),
                           \<lambda>(sts, queue, visited). length queue]")
  show "wf (measures [\<lambda>(sts, queue, visited). card ((targets sts \<union> set queue) - set visited),
                      \<lambda>(sts, queue, visited). length queue])"
    by (rule wf_measures)
next
  fix sts :: "wf_state js_object" and current :: string and queue visited :: "string list"
  show "((sts, queue, visited), (sts, current # queue, visited))
        \<in> measures [\<lambda>(sts, queue, visited). card ((targets sts \<union> set queue) - set visited),
                     \<lambda>(sts, queue, visited). length queue]"
    by (rule measures_pairI_le) (simp only: prod.case bfs_skip_measure, simp)
next
  fix sts :: "wf_state js_object" and current :: string and queue visited :: "string list"
  assume "\<not> (current = [] \<or> current \<in> set visited)"
  then have "current \<notin> set visited"
    by simp
  then show "((sts, queue @ goto_pushed (map_of sts current) @ choices_pushed (map_of sts current),
               visited @ [current]), (sts, current # queue, visited))
        \<in> measures [\<lambda>(sts, queue, visited). card ((targets sts \<union> set queue) - set visited),
                     \<lambda>(sts, queue, visited). length queue]"
    by (intro measures_pairI_less) (simp only: prod.case, rule bfs_visit_measure)
qed

definition checkReachability :: "workflow \<Rightarrow> bool" where
  "checkReachability w =
     (length (bfs_loop (wf_states w) [wf_startAt w] []) = length (object_keys (wf_states w)))"

subsection \<open>detectCycles\<close>

text \<open>
  The recursive closure \<^verbatim>\<open>hasCycle\<close> with its two sets \<^verbatim>\<open>visited\<close> and
  \<^verbatim>\<open>recStack\<close>, passed in and returned. It follows only \<^verbatim>\<open>state.goto\<close>
  (\<^verbatim>\<open>const next = Array.isArray(state.goto) ? state.goto : [state.goto]\<close>, under
  \<^verbatim>\<open>if (state?.goto)\<close>), which is the list \<open>goto_pushed\<close> above; \<open>hasCycle_next\<close>
  is the loop \<^verbatim>\<open>for (const n of next) if (n !== 'end' && hasCycle(n)) return true\<close>.
  On \<^verbatim>\<open>return true\<close> the node stays on \<^verbatim>\<open>recStack\<close>.
\<close>

function hasCycle :: "wf_state js_object \<Rightarrow> string \<Rightarrow> string list \<times> string list
                       \<Rightarrow> bool \<times> string list \<times> string list"
  and hasCycle_next :: "wf_state js_object \<Rightarrow> string list \<Rightarrow> string list \<times> string list
                       \<Rightarrow> bool \<times> string list \<times> string list"
where
  "hasCycle sts node (visited, recStack) =
     (if node \<in> set recStack then (True, visited, recStack)
      else if node \<in> set visited then (False, visited, recStack)
      else (let (found, visited', recStack') =
                  hasCycle_next sts (goto_pushed (map_of sts node)) (visited @ [node], recStack @ [node])
            in if found then (True, visited', recStack')
               else (False, visited', removeAll node recStack')))"
| "hasCycle_next sts [] st = (False, st)"
| "hasCycle_next sts (n # ns) st =
     (if n \<noteq> ''end'' then
        (let (found, st') = hasCycle sts n st
         in if found then (True, st') else hasCycle_next sts ns st')
      else hasCycle_next sts ns st)"
  by pat_completeness auto

lemma hasCycle_visited_grows_dom:
  "hasCycle_hasCycle_next_dom (Inl (sts, node, st)) \<Longrightarrow>
     set (fst st) \<subseteq> set (fst (snd (hasCycle sts node st)))"
  "hasCycle_hasCycle_next_dom (Inr (sts, ns, st)) \<Longrightarrow>
     set (fst st) \<subseteq> set (fst (snd (hasCycle_next sts ns st)))"
proof (induct rule: hasCycle_hasCycle_next.pinduct)
  case (1 sts node visited recStack)
  then show ?case
    by (auto simp: hasCycle.psimps split: prod.splits)
next
  case (2 sts st)
  then show ?case
    by (simp add: hasCycle_next.psimps)
next
  case (3 sts n ns st)
  show ?case
  proof (cases "n \<noteq> ''end''")
    case False
    with 3 show ?thesis
      by (simp add: hasCycle_next.psimps)
  next
    case True
    obtain found st' where r: "hasCycle sts n st = (found, st')"
      by (cases "hasCycle sts n st")
    from 3(2) True r have a: "set (fst st) \<subseteq> set (fst st')"
      by simp
    show ?thesis
    proof (cases found)
      case True
      with 3(1) \<open>n \<noteq> ''end''\<close> r a show ?thesis
        by (simp add: hasCycle_next.psimps)
    next
      case False
      with 3(3) [OF \<open>n \<noteq> ''end''\<close> refl r [symmetric]]
      have "set (fst st') \<subseteq> set (fst (snd (hasCycle_next sts ns st')))"
        by simp
      with 3(1) \<open>n \<noteq> ''end''\<close> r a False show ?thesis
        by (simp add: hasCycle_next.psimps)
    qed
  qed
qed

lemma dfs_enter_measure:
  assumes "node \<notin> set vis"
  shows "card ((targets sts \<union> set (goto_pushed (map_of sts node))) - set (vis @ [node]))
         < card ((targets sts \<union> {node}) - set vis)"
proof -
  let ?old = "(targets sts \<union> {node}) - set vis"
  have fin: "finite ?old"
    by (simp add: finite_targets)
  have "(targets sts \<union> set (goto_pushed (map_of sts node))) - set (vis @ [node]) \<subseteq> ?old - {node}"
    using pushed_in_targets [of sts node] by auto
  then have "card ((targets sts \<union> set (goto_pushed (map_of sts node))) - set (vis @ [node]))
             \<le> card (?old - {node})"
    using fin by (intro card_mono) auto
  also have "\<dots> < card ?old"
    using assms fin by (intro card_Diff1_less) auto
  finally show ?thesis .
qed

lemma dfs_call_measure:
  "card ((targets sts \<union> {n}) - set vis) \<le> card ((targets sts \<union> set (n # ns)) - set vis)"
  by (rule card_mono) (auto simp: finite_targets)

lemma dfs_rest_measure:
  assumes "set vis \<subseteq> set vis'"
  shows "card ((targets sts \<union> set ns) - set vis') \<le> card ((targets sts \<union> set (n # ns)) - set vis)"
  using assms by (intro card_mono) (auto simp: finite_targets)

termination hasCycle
proof (relation "measures
    [\<lambda>x. case x of
            Inl (sts, node, vis, rs) \<Rightarrow> card ((targets sts \<union> {node}) - set vis)
          | Inr (sts, ns, vis, rs) \<Rightarrow> card ((targets sts \<union> set ns) - set vis),
     \<lambda>x. case x of Inl _ \<Rightarrow> 0 | Inr (sts, ns, st) \<Rightarrow> Suc (length ns)]", goal_cases)
  case 1
  show ?case by (rule wf_measures)
next
  case (2 sts node visited recStack)
  then show ?case
    by (intro measures_pairI_less) (simp only: sum.case prod.case, rule dfs_enter_measure)
next
  case (3 sts n ns st)
  obtain vis rs where st: "st = (vis, rs)"
    by (cases st)
  show ?case unfolding st
  proof (rule measures_pairI_le)
    show "(case Inl (sts, n, vis, rs) of
            Inl (sts, node, vis, rs) \<Rightarrow> card ((targets sts \<union> {node}) - set vis)
          | Inr (sts, ns, vis, rs) \<Rightarrow> card ((targets sts \<union> set ns) - set vis))
        \<le> (case Inr (sts, n # ns, vis, rs) of
            Inl (sts, node, vis, rs) \<Rightarrow> card ((targets sts \<union> {node}) - set vis)
          | Inr (sts, ns, vis, rs) \<Rightarrow> card ((targets sts \<union> set ns) - set vis))"
      by (simp only: sum.case prod.case) (rule dfs_call_measure)
  qed simp
next
  case (4 sts n ns st x xa y)
  obtain vis rs where st: "st = (vis, rs)"
    by (cases st)
  obtain vis' rs' where y: "y = (vis', rs')"
    by (cases y)
  from 4 have "hasCycle sts n st = (xa, y)"
    by simp
  with hasCycle_visited_grows_dom(1) [OF 4(5)] have grows: "set vis \<subseteq> set vis'"
    by (simp add: st y)
  show ?case unfolding st y
  proof (rule measures_pairI_le)
    show "(case Inr (sts, ns, vis', rs') of
            Inl (sts, node, vis, rs) \<Rightarrow> card ((targets sts \<union> {node}) - set vis)
          | Inr (sts, ns, vis, rs) \<Rightarrow> card ((targets sts \<union> set ns) - set vis))
        \<le> (case Inr (sts, n # ns, vis, rs) of
            Inl (sts, node, vis, rs) \<Rightarrow> card ((targets sts \<union> {node}) - set vis)
          | Inr (sts, ns, vis, rs) \<Rightarrow> card ((targets sts \<union> set ns) - set vis))"
      using grows by (simp only: sum.case prod.case) (rule dfs_rest_measure)
  qed simp
next
  case (5 sts n ns st)
  obtain vis rs where st: "st = (vis, rs)"
    by (cases st)
  show ?case unfolding st
  proof (rule measures_pairI_le)
    show "(case Inr (sts, ns, vis, rs) of
            Inl (sts, node, vis, rs) \<Rightarrow> card ((targets sts \<union> {node}) - set vis)
          | Inr (sts, ns, vis, rs) \<Rightarrow> card ((targets sts \<union> set ns) - set vis))
        \<le> (case Inr (sts, n # ns, vis, rs) of
            Inl (sts, node, vis, rs) \<Rightarrow> card ((targets sts \<union> {node}) - set vis)
          | Inr (sts, ns, vis, rs) \<Rightarrow> card ((targets sts \<union> set ns) - set vis))"
      by (simp only: sum.case prod.case) (rule dfs_rest_measure, rule subset_refl)
  qed simp
qed

definition detectCycles :: "workflow \<Rightarrow> bool" where
  "detectCycles w = fst (hasCycle (wf_states w) (wf_startAt w) ([], []))"

subsection \<open>verifyWorkflow and synthesizeWorkflow\<close>

record synthesizer =
  confidenceThreshold :: rat

text \<open>\<^verbatim>\<open>config.confidenceThreshold || 0.75\<close>: a missing or zero setting gives 0.75.\<close>

definition newSynthesizer :: "rat option \<Rightarrow> synthesizer" where
  "newSynthesizer cfg =
     \<lparr>confidenceThreshold = (case cfg of None \<Rightarrow> 3 / 4 | Some c \<Rightarrow> if c = 0 then 3 / 4 else c)\<rparr>"

record checks =
  hasStartState :: bool
  hasEndState :: bool
  allStatesReachable :: bool
  noCycles :: bool
  inputContractValid :: bool
  confidenceAboveThreshold :: bool

record verification =
  valid :: bool
  reason :: string
  ver_checks :: checks

definition checkEntries :: "checks \<Rightarrow> (string \<times> bool) list" where
  "checkEntries c =
     [(''hasStartState'', hasStartState c),
      (''hasEndState'', hasEndState c),
      (''allStatesReachable'', allStatesReachable c),
      (''noCycles'', noCycles c),
      (''inputContractValid'', inputContractValid c),
      (''confidenceAboveThreshold'', confidenceAboveThreshold c)]"

definition verifyWorkflow :: "synthesizer \<Rightarrow> workflow \<Rightarrow> verification" where
  "verifyWorkflow s w =
     (let checks = \<lparr>hasStartState = (map_of (wf_states w) (wf_startAt w) \<noteq> None),
                    hasEndState = (map_of (wf_states w) ''end'' \<noteq> None),
                    allStatesReachable = checkReachability w,
                    noCycles = (\<not> detectCycles w),
                    inputContractValid = (length (contract_required (wf_inputContract w)) > 0),
                    confidenceAboveThreshold = (wf_confidence w \<ge> confidenceThreshold s)\<rparr>;
          failed = map fst (filter (\<lambda>(check, ok). \<not> ok) (checkEntries checks))
      in \<lparr>valid = (length failed = 0), reason = join_comma failed, ver_checks = checks\<rparr>)"

text \<open>
  The workflow object built by \<^verbatim>\<open>synthesizeWorkflow\<close>, without its identifiers, time
  stamps, output contract and performance figures, which no check reads. (Their
  computation throws only when the last task of the first trace has the output
  \<^verbatim>\<open>null\<close>; an output here is an object or missing.)
\<close>

definition buildWorkflow :: "pattern \<Rightarrow> trace list \<Rightarrow> workflow" where
  "buildWorkflow p traces =
     \<lparr>wf_confidence = pattern_confidence p,
      wf_startAt = ''input_validation'',
      wf_states = generateStates p,
      wf_inputContract = extractInputContract traces,
      wf_traceCount = length traces\<rparr>"

text \<open>
  \<open>None\<close> is the \<^verbatim>\<open>null\<close> returned when verification fails; otherwise the workflow
  is returned (\<^verbatim>\<open>compileWorkflow\<close> only adds the flags \<^verbatim>\<open>executable\<close> and
  \<^verbatim>\<open>compiled\<close> and a stub \<^verbatim>\<open>execute\<close>).
\<close>

definition synthesizeWorkflow :: "synthesizer \<Rightarrow> pattern \<Rightarrow> trace list \<Rightarrow> workflow option" where
  "synthesizeWorkflow s p traces =
     (let workflow = buildWorkflow p traces;
          verified = verifyWorkflow s workflow
      in if \<not> valid verified then None else Some workflow)"

section \<open>ThompsonSamplingRouter\<close>

text \<open>
  The statistics object \<^verbatim>\<open>{alpha, beta}\<close> of an arm; a property may be missing.
\<close>

record arm_stats =
  alpha :: "js_number option"
  beta :: "js_number option"

text \<open>The postfix increment \<^verbatim>\<open>x++\<close> stores \<^verbatim>\<open>Number(x) + 1\<close>.\<close>

definition increment :: "js_number option \<Rightarrow> js_number option" where
  "increment x = Some (plusUndef x (Num 1))"

text \<open>
  The router object owns \<^verbatim>\<open>this.priors\<close>, an object from route name to a prior object
  \<^verbatim>\<open>{alpha, beta}\<close>; these prior objects are the only objects that live from one call to
  the next, and \<open>priors\<close> is their store, addressed by route name. \<open>table\<close> is the stored
  item per query pattern, as \<^verbatim>\<open>saveStats\<close> wrote it (\<^verbatim>\<open>getQueryPattern\<close>, which
  normalises the query text, is left out: a query is given by its pattern). A failing read
  of the store behaves as a missing item.
\<close>

record router =
  priors :: "arm_stats js_object"
  table :: "string \<Rightarrow> arm_stats js_object option"

definition newRouter :: router where
  "newRouter =
     \<lparr>priors = [(''deterministic'', \<lparr>alpha = Some (Num 1), beta = Some (Num 1)\<rparr>),
                (''synthesized'', \<lparr>alpha = Some (Num 1), beta = Some (Num 1)\<rparr>),
                (''llm'', \<lparr>alpha = Some (Num 1), beta = Some (Num 1)\<rparr>)],
      table = (\<lambda>q. None)\<rparr>"

text \<open>
  An entry of the local \<^verbatim>\<open>stats\<close> object refers either to an object of its own (read
  from the store, or a fresh copy) or to a prior object of the router itself:
  \<^verbatim>\<open>{ ...this.priors }\<close> copies the outer object only, its entries are the very
  objects \<^verbatim>\<open>this.priors[name]\<close>.
\<close>

datatype stats_entry = OwnObject arm_stats | PriorObject string

text \<open>\<^verbatim>\<open>result.Item?.stats || { ...this.priors }\<close>\<close>

definition loadStats :: "router \<Rightarrow> string \<Rightarrow> stats_entry js_object" where
  "loadStats r q =
     (case table r q of
        Some item \<Rightarrow> map (\<lambda>(arm, st). (arm, OwnObject st)) item
      | None \<Rightarrow> map (\<lambda>(arm, st). (arm, PriorObject arm)) (priors r))"

text \<open>\<^verbatim>\<open>{ ...this.priors[route] }\<close>: a copy of the prior object, the empty object when
  the route has no prior.\<close>

definition copyPrior :: "router \<Rightarrow> string \<Rightarrow> arm_stats" where
  "copyPrior r route =
     (case map_of (priors r) route of
        Some prior \<Rightarrow> prior
      | None \<Rightarrow> \<lparr>alpha = None, beta = None\<rparr>)"

text \<open>\<^verbatim>\<open>if (success) obj.alpha++ else obj.beta++\<close>\<close>

definition bumpStats :: "bool \<Rightarrow> arm_stats \<Rightarrow> arm_stats" where
  "bumpStats success st =
     (if success then st\<lparr>alpha := increment (alpha st)\<rparr> else st\<lparr>beta := increment (beta st)\<rparr>)"

text \<open>The object an entry refers to.\<close>

definition deref :: "router \<Rightarrow> stats_entry \<Rightarrow> arm_stats" where
  "deref r e =
     (case e of
        OwnObject st \<Rightarrow> st
      | PriorObject name \<Rightarrow> copyPrior r name)"

text \<open>
  \<^verbatim>\<open>updateStats(query, route, success)\<close>: load, add the missing arm, increment the
  object the entry refers to (the prior object itself when the entry is one), and write
  the item with the values the entries then have.
\<close>

definition updateStats :: "router \<Rightarrow> string \<Rightarrow> string \<Rightarrow> bool \<Rightarrow> router" where
  "updateStats r q route success =
     (let stats = loadStats r q;
          stats = (if map_of stats route = None
                   then AList.update route (OwnObject (copyPrior r route)) stats
                   else stats);
          (stats, r) =
             (case map_of stats route of
                Some (PriorObject name) \<Rightarrow>
                  (stats, r\<lparr>priors := AList.update name (bumpStats success (copyPrior r name)) (priors r)\<rparr>)
              | Some (OwnObject st) \<Rightarrow>
                  (AList.update route (OwnObject (bumpStats success st)) stats, r)
              | None \<Rightarrow> (stats, r))
      in r\<lparr>table := (table r)(q := Some (map (\<lambda>(arm, e). (arm, deref r e)) stats))\<rparr>)"

text \<open>
  The statistics of an arm as the next call reads them for a query pattern: the entry of
  what \<^verbatim>\<open>loadStats\<close> returns. (\<^verbatim>\<open>selectRoute\<close> draws random samples from them and is
  not modelled.)
\<close>

definition armStats :: "router \<Rightarrow> string \<Rightarrow> string \<Rightarrow> arm_stats option" where
  "armStats r q arm = map_option (deref r) (map_of (loadStats r q) arm)"

section \<open>Notions used in the statements\<close>

text \<open>
  The number of traces whose first task has the input field, and its share of all
  traces: what ``the field appears in x% of the first-task inputs'' means.
\<close>

definition appearances :: "trace list \<Rightarrow> string \<Rightarrow> nat" where
  "appearances traces field = length (filter (\<lambda>t. field \<in> set (firstInputFields t)) traces)"

definition share :: "trace list \<Rightarrow> string \<Rightarrow> rat" where
  "share traces field = rat_of_nat (appearances traces field) / rat_of_nat (length traces)"

text \<open>The count an object of counters holds for a key, 0 when the key is absent.\<close>

definition counted :: "nat js_object \<Rightarrow> string \<Rightarrow> nat" where
  "counted obj k = (case map_of obj k of None \<Rightarrow> 0 | Some c \<Rightarrow> c)"

text \<open>A task with a given name (or no task, for an index out of range) bears the name.\<close>

definition named :: "string \<Rightarrow> task option \<Rightarrow> bool" where
  "named name t = (map_option taskName t = Some name)"

text \<open>Every transition a state names: its goto, its choices and its default.\<close>

definition transitions :: "wf_state js_object \<Rightarrow> (string \<times> string list) list" where
  "transitions sts =
     map (\<lambda>(k, s). (k, goto_pushed (Some s) @ choices_pushed (Some s)
                        @ (case st_default s of None \<Rightarrow> [] | Some d \<Rightarrow> [d]))) sts"

section \<open>Concrete patterns and traces\<close>

text \<open>A Task node as the extractor builds it, with empty input and output parts.\<close>

definition mkTaskNode :: "nat \<Rightarrow> string \<Rightarrow> rat \<Rightarrow> pattern_node" where
  "mkTaskNode position name frequency =
     taskNode position name frequency
       \<lparr>io_schema = None, io_values = None\<rparr> \<lparr>io_schema = None, io_values = None\<rparr>"

text \<open>A trace of one task \<open>A\<close> whose input values have the given field names.\<close>

definition fieldTrace :: "string list \<Rightarrow> trace" where
  "fieldTrace fs =
     \<lparr>executionSequence =
        [\<lparr>taskName = ''A'',
          task_input = Some \<lparr>io_schema = None, io_values = Some (map (\<lambda>f. (f, ''v'')) fs)\<rparr>,
          task_output = None\<rparr>]\<rparr>"

text \<open>
  Task \<open>A\<close>, then a branch between going back to \<open>A\<close> and going on to \<open>C\<close>, then \<open>C\<close>:
  what the extractor yields for traces such as \<open>A A C\<close> and \<open>A C C\<close> in equal numbers.
\<close>

definition backEdgePattern :: pattern where
  "backEdgePattern =
     \<lparr>consensusSequence =
        [mkTaskNode 0 ''A'' 1, branchNode 1 [(''A'', 1), (''C'', 1)], mkTaskNode 2 ''C'' 1],
      guardConditions =
        [\<lparr>guard_position = 1,
          guard_conditions = [(''A'', CondString ''retry''), (''C'', CondString ''done'')]\<rparr>],
      pattern_confidence = 9 / 10\<rparr>"

text \<open>Task \<open>A\<close>, then a branch whose only option goes back to \<open>A\<close>.\<close>

definition allBackPattern :: pattern where
  "allBackPattern =
     \<lparr>consensusSequence = [mkTaskNode 0 ''A'' 1, branchNode 1 [(''A'', 2)]],
      guardConditions =
        [\<lparr>guard_position = 1, guard_conditions = [(''A'', CondString ''retry'')]\<rparr>],
      pattern_confidence = 9 / 10\<rparr>"

text \<open>
  Tasks \<open>A\<close>, \<open>B\<close>, \<open>A\<close> again, then a branch between \<open>X\<close> and \<open>Y\<close>: what the
  extractor yields for traces \<open>A B A X\<close> and \<open>A B A Y\<close> in equal numbers.
\<close>

definition repeatedTaskPattern :: pattern where
  "repeatedTaskPattern =
     \<lparr>consensusSequence =
        [mkTaskNode 0 ''A'' 1, mkTaskNode 1 ''B'' 1, mkTaskNode 2 ''A'' 1,
         branchNode 3 [(''X'', 1), (''Y'', 1)]],
      guardConditions =
        [\<lparr>guard_position = 3,
          guard_conditions = [(''X'', CondString ''left''), (''Y'', CondString ''right'')]\<rparr>],
      pattern_confidence = 9 / 10\<rparr>"

text \<open>A branch first, then tasks that bear the names of the states of the compiler.\<close>

definition collidingPattern :: pattern where
  "collidingPattern =
     \<lparr>consensusSequence =
        [branchNode 0 [(''X'', 1), (''Y'', 1)],
         mkTaskNode 1 ''input_validation'' 1, mkTaskNode 2 ''choice_0'' 1],
      guardConditions = [],
      pattern_confidence = 9 / 10\<rparr>"

text \<open>A branch first, then task \<open>A\<close>.\<close>

definition branchFirstPattern :: pattern where
  "branchFirstPattern =
     \<lparr>consensusSequence = [branchNode 0 [(''X'', 1), (''Y'', 1)], mkTaskNode 1 ''A'' 1],
      guardConditions =
        [\<lparr>guard_position = 0,
          guard_conditions = [(''X'', CondString ''left''), (''Y'', CondString ''right'')]\<rparr>],
      pattern_confidence = 9 / 10\<rparr>"


definition twoTraces :: "trace list" where
  "twoTraces = [fieldTrace [''q''], fieldTrace [''r'']]"

text \<open>A task with empty input and output parts.\<close>

definition plainTask :: "string \<Rightarrow> task" where
  "plainTask name =
     \<lparr>taskName = name,
      task_input = Some \<lparr>io_schema = None, io_values = None\<rparr>,
      task_output = Some \<lparr>io_schema = None, io_values = None\<rparr>\<rparr>"

text \<open>Ten aligned sequences of length one: nine hold task \<open>A\<close>, the tenth a gap.\<close>

definition nineOfTen :: "task list list" where
  "nineOfTen = replicate 9 [plainTask ''A''] @ [[gap_task]]"

text \<open>A task whose input and output schemas are the empty object.\<close>

definition schemaTask :: "string \<Rightarrow> task" where
  "schemaTask name =
     \<lparr>taskName = name,
      task_input = Some \<lparr>io_schema = Some [], io_values = None\<rparr>,
      task_output = Some \<lparr>io_schema = Some [], io_values = None\<rparr>\<rparr>"


text \<open>The pattern of one Task node \<open>A\<close> of frequency 9/10.\<close>

definition nineOfTenPattern :: pattern where
  "nineOfTenPattern =
     \<lparr>consensusSequence = [mkTaskNode 0 ''A'' (9 / 10)],
      guardConditions = [],
      pattern_confidence = 9 / 10\<rparr>"

section \<open>Verification of the claims\<close>

subsection \<open>Alignment (C3)\<close>


















text \<open>A number that is neither \<^verbatim>\<open>NaN\<close> nor \<^verbatim>\<open>-Infinity\<close>.\<close>

definition regular :: "js_number \<Rightarrow> bool" where
  "regular x = (case x of Num v \<Rightarrow> True | PInf \<Rightarrow> True | _ \<Rightarrow> False)"

lemma regular_cases: "regular x \<Longrightarrow> (\<exists>v. x = Num v) \<or> x = PInf"
  by (cases x) (simp_all add: regular_def)












lemma strictEq_finite_inf: "strictEq (Some (Num v)) (Some PInf) = False"
  by simp










text \<open>
  The two hypotheses of the amended claim are needed. In row 1 with \<open>j \<le> 0\<close> both tests
  fail (\<open>dtw[1][0]\<close> is \<^verbatim>\<open>Infinity\<close> and \<open>dtw[0][0] + 1\<close> is 1; left of the matrix the
  entries are \<^verbatim>\<open>undefined\<close>), so the loop takes its last branch, decrements \<open>j\<close> and
  stays there for ever.
\<close>

lemma stuck_in_first_row:
  assumes "backtrack seq1 seq2 dtw i j acc = Some y"
  shows "\<not> (i = 1 \<and> j \<le> 0 \<and> (\<exists>row0 row1. dtw = [Num 0 # row0, PInf # row1]))"
proof (rule backtrack.raw_induct
    [where P = "\<lambda>seq1 seq2 dtw i j acc y.
                  \<not> (i = 1 \<and> j \<le> 0 \<and> (\<exists>row0 row1. dtw = [Num 0 # row0, PInf # row1]))",
     OF _ assms], goal_cases)
  case (1 loop seq1 seq2 dtw i j acc y)
  show ?case
  proof
    assume stuck: "i = 1 \<and> j \<le> 0 \<and> (\<exists>row0 row1. dtw = [Num 0 # row0, PInf # row1])"
    then obtain row0 row1 where dtw: "dtw = [Num 0 # row0, PInf # row1]"
      by blast
    from stuck have i: "i = 1" and j: "j \<le> 0"
      by simp_all
    have diag: "diagonalTest seq1 seq2 dtw 1 j = Inr False"
      using j by (simp add: diagonalTest_def)
    have del: "deletionTest dtw 1 j = Inr False"
    proof (cases "j = 0")
      case True
      then show ?thesis
        by (simp add: deletionTest_def entry_def elemAt_def dtw plusUndef_def)
    next
      case False
      with j have "j < 0"
        by simp
      then show ?thesis
        by (simp add: deletionTest_def entry_def elemAt_def dtw plusUndef_def)
    qed
    from 1(2) have "loop seq1 seq2 dtw 1 (j - 1) (elemAt seq2 (j - 1) # acc) = Some y"
      unfolding i by (simp add: diag del)
    then have "\<not> ((1::int) = 1 \<and> j - 1 \<le> 0 \<and> (\<exists>row0 row1. dtw = [Num 0 # row0, PInf # row1]))"
      by (rule 1(1))
    moreover have "j - 1 \<le> 0"
      using j by simp
    ultimately show False
      using dtw by blast
  qed
qed

text \<open>An empty trace after a reference of one task: the loop never ends.\<close>

theorem empty_trace_never_returns: "alignTwoSequences [plainTask ''A''] [] = None"
proof -
  have fill: "fillMatrix [plainTask ''A''] [] = Inr [[Num 0], [PInf]]"
    by code_simp
  have "backtrack [plainTask ''A''] [] [[Num 0], [PInf]] 1 0 [] = None"
  proof (cases "backtrack [plainTask ''A''] [] [[Num 0], [PInf]] 1 0 []")
    case (Some y)
    from stuck_in_first_row [OF this] show ?thesis
      by simp
  qed simp
  then show ?thesis
    by (simp add: alignTwoSequences_def fill)
qed

text \<open>
  Two tasks of different names whose schemas are all empty have the similarity
  \<^verbatim>\<open>0 / 0\<close>, that is \<^verbatim>\<open>NaN\<close>; the matrix entry is \<^verbatim>\<open>NaN\<close>, no test succeeds and
  the loop never ends.
\<close>

theorem undefined_similarity_never_returns:
  "taskSimilarity (Some (schemaTask ''A'')) (Some (schemaTask ''B'')) = Inr NaN
   \<and> alignTwoSequences [schemaTask ''A''] [schemaTask ''B''] = None"
proof -
  have sim: "taskSimilarity (Some (schemaTask ''A'')) (Some (schemaTask ''B'')) = Inr NaN"
    by code_simp
  have fill: "fillMatrix [schemaTask ''A''] [schemaTask ''B''] = Inr [[Num 0, PInf], [PInf, NaN]]"
    by code_simp
  have diag: "diagonalTest [schemaTask ''A''] [schemaTask ''B''] [[Num 0, PInf], [PInf, NaN]] 1 1 = Inr False"
    by (simp add: diagonalTest_def entry_def elemAt_def sim)
  have del: "deletionTest [[Num 0, PInf], [PInf, NaN]] 1 1 = Inr False"
    by (simp add: deletionTest_def entry_def elemAt_def)
  have step: "backtrack [schemaTask ''A''] [schemaTask ''B''] [[Num 0, PInf], [PInf, NaN]] 1 1 []
        = backtrack [schemaTask ''A''] [schemaTask ''B''] [[Num 0, PInf], [PInf, NaN]] 1 0
            [elemAt [schemaTask ''B''] 0]"
    by (subst backtrack.simps) (simp add: diag del)
  have "backtrack [schemaTask ''A''] [schemaTask ''B''] [[Num 0, PInf], [PInf, NaN]] 1 0
          [elemAt [schemaTask ''B''] 0] = None"
  proof (cases "backtrack [schemaTask ''A''] [schemaTask ''B''] [[Num 0, PInf], [PInf, NaN]] 1 0
          [elemAt [schemaTask ''B''] 0]")
    case (Some y)
    from stuck_in_first_row [OF this] show ?thesis
      by simp
  qed simp
  with step show ?thesis
    by (simp add: alignTwoSequences_def fill sim)
qed

subsection \<open>The consensus extractor and the error policy (C2, C5)\<close>

lemma named_Some [simp]: "named name (Some tk) = (taskName tk = name)"
  by (simp add: named_def)

lemma named_None [simp]: "named name None = False"
  by (simp add: named_def)




lemma consensusLoop_nth:
  assumes "consensusLoop th sequences positions = Inr nodes"
  shows "length nodes = length positions \<and>
         (\<forall>i < length positions.
            consensusNode th (length sequences) (tasksAtPosition sequences (positions ! i)) (positions ! i)
            = Inr (nodes ! i))"
  using assms
proof (induction positions arbitrary: nodes)
  case Nil
  then show ?case by simp
next
  case (Cons position positions)
  from Cons.prems obtain node rest where
    node: "consensusNode th (length sequences) (tasksAtPosition sequences position) position = Inr node"
    and rest: "consensusLoop th sequences positions = Inr rest"
    and nodes: "nodes = node # rest"
    by (auto split: sum.splits)
  from Cons.IH [OF rest] node nodes show ?case
    by (auto simp: nth_Cons split: nat.splits)
qed






lemma consensusNode_shape:
  assumes "consensusNode th n tasks position = Inr node" and "node_taskName node \<noteq> ''BRANCH''"
  shows "\<exists>f. node_frequency node = Some f \<and> node_required node = (9 / 10 \<le> f)"
  using assms
  by (auto simp: consensusNode_def taskNode_def branchNode_def
           split: sum.splits prod.splits option.splits if_splits)

lemma consensusLoop_shape:
  assumes "consensusLoop th sequences positions = Inr nodes"
      and "node \<in> set nodes" and "node_taskName node \<noteq> ''BRANCH''"
  shows "\<exists>f. node_frequency node = Some f \<and> node_required node = (9 / 10 \<le> f)"
proof -
  from assms(2) obtain i where i: "i < length nodes" "nodes ! i = node"
    by (auto simp: in_set_conv_nth)
  with consensusLoop_nth [OF assms(1)] assms(3) show ?thesis
    using consensusNode_shape by metis
qed



lemma update_entries: "set (AList.update k v al) \<subseteq> insert (k, v) (set al)"
  by (induction al) auto

lemma statesLoop_entries:
  assumes "(k, s) \<in> set (statesLoop p nodes index sts)"
  shows "(k, s) \<in> set sts \<or> st_type s = ''choice''
         \<or> (\<exists>node \<in> set nodes. \<exists>i nx. node_taskName node = k \<and> node_taskName node \<noteq> ''BRANCH''
                \<and> s = taskState node i nx)"
  using assms
proof (induction nodes arbitrary: index sts)
  case Nil
  then show ?case by simp
next
  case (Cons node rest)
  let ?nx = "case rest of [] \<Rightarrow> None | nx # _ \<Rightarrow> Some nx"
  show ?case
  proof (cases "node_taskName node = ''BRANCH''")
    case True
    with Cons.prems have "(k, s) \<in> set (statesLoop p rest (index + 1)
        (AList.update (''choice_'' @ string_of_nat index) (choiceState p index ?nx) sts))"
      by (simp add: Let_def)
    from Cons.IH [OF this] update_entries [of "''choice_'' @ string_of_nat index" "choiceState p index ?nx" sts]
    show ?thesis
      by (auto simp: choiceState_def)
  next
    case False
    with Cons.prems have "(k, s) \<in> set (statesLoop p rest (index + 1)
        (AList.update (node_taskName node) (taskState node index ?nx) sts))"
      by (simp add: Let_def)
    from Cons.IH [OF this] update_entries [of "node_taskName node" "taskState node index ?nx" sts] False
    show ?thesis
      by auto
  qed
qed

lemma compiled_task_state:
  assumes "(k, s) \<in> set (generateStates p)" and "st_type s = ''task''"
  shows "\<exists>node \<in> set (consensusSequence p). \<exists>i nx. node_taskName node = k
            \<and> node_taskName node \<noteq> ''BRANCH'' \<and> s = taskState node i nx"
proof -
  from assms(1) update_entries [of "''end''" endState]
  have "(k, s) = (''end'', endState)
        \<or> (k, s) \<in> set (statesLoop p (consensusSequence p) 0 [(''input_validation'', validationState p)])"
    unfolding generateStates_def by blast
  with assms(2) have "(k, s) \<in> set (statesLoop p (consensusSequence p) 0
                                      [(''input_validation'', validationState p)])"
    by (auto simp: endState_def)
  from statesLoop_entries [OF this] assms(2) show ?thesis
    by (auto simp: validationState_def)
qed

text \<open>
  The same for the states found in the compiled workflow: every task state of
  \<^verbatim>\<open>generateStates\<close> was built from a node of its name, and its handler follows that
  node's \<^verbatim>\<open>required\<close>.
\<close>

lemma compiled_error_policy:
  assumes "extractConsensusPattern th sequences = Inr (consensusSequence p)"
      and "(k, s) \<in> set (generateStates p)" and "st_type s = ''task''"
  shows "\<exists>node \<in> set (consensusSequence p). node_taskName node = k
            \<and> (st_errorHandler s = Some ''fail'') = node_required node
            \<and> (st_errorHandler s = Some ''skip'') = (\<not> node_required node)"
proof -
  from compiled_task_state [OF assms(2,3)] obtain node i nx where
    node: "node \<in> set (consensusSequence p)" "node_taskName node = k"
          "node_taskName node \<noteq> ''BRANCH''" "s = taskState node i nx"
    by blast
  from assms(1) have "\<exists>positions. consensusLoop th sequences positions = Inr (consensusSequence p)"
    by (cases sequences) (auto simp: extractConsensusPattern_def)
  with node(1,3) obtain f where "node_frequency node = Some f" "node_required node = (9 / 10 \<le> f)"
    using consensusLoop_shape by blast
  then have "(st_errorHandler s = Some ''fail'') = node_required node
             \<and> (st_errorHandler s = Some ''skip'') = (\<not> node_required node)"
    by (auto simp: node(4) taskState_def)
  with node(1,2) show ?thesis
    by blast
qed

text \<open>
  At frequency exactly 0.9 the compiled state of the task has the handler \<open>fail\<close>, as the
  node's \<^verbatim>\<open>required\<close> says, while the state's own \<^verbatim>\<open>required\<close> property, computed with
  \<^verbatim>\<open>node.frequency > 0.9\<close>, is \<open>false\<close>.
\<close>

lemma nine_of_ten_compiled:
  "extractConsensusPattern (4 / 5) nineOfTen = Inr (consensusSequence nineOfTenPattern)
   \<and> map_option st_errorHandler (map_of (generateStates nineOfTenPattern) ''A'') = Some (Some ''fail'')
   \<and> map_option st_required (map_of (generateStates nineOfTenPattern) ''A'') = Some (Some False)"
  by code_simp

subsection \<open>The input contract (C6, C9)\<close>

lemma counted_bump: "counted (bump f obj) g = counted obj g + (if g = f then 1 else 0)"
  by (simp add: counted_def bump_def update_conv')

lemma counted_fold_bump: "counted (fold bump fs obj) g = counted obj g + count_list fs g"
  by (induction fs arbitrary: obj) (simp_all add: counted_bump)

lemma distinct_firstInputFields: "distinct (firstInputFields t)"
  by (simp add: firstInputFields_def object_keys_def split: list.splits option.splits)

lemma count_list_distinct: "distinct xs \<Longrightarrow> count_list xs x = (if x \<in> set xs then 1 else 0)"
  by (induction xs) auto

lemma counted_fold_traces:
  "counted (fold (\<lambda>t obj. fold bump (firstInputFields t) obj) traces obj) g
   = counted obj g + appearances traces g"
  by (induction traces arbitrary: obj)
     (simp_all add: appearances_def counted_fold_bump count_list_distinct distinct_firstInputFields)

lemma counted_countFields: "counted (countFields traces) g = appearances traces g"
  by (simp add: countFields_def counted_fold_traces) (simp add: counted_def)

lemma distinct_bump: "distinct (map fst obj) \<Longrightarrow> distinct (map fst (bump f obj))"
  by (simp add: bump_def distinct_update)

lemma distinct_fold_bump: "distinct (map fst obj) \<Longrightarrow> distinct (map fst (fold bump fs obj))"
  by (induction fs arbitrary: obj) (simp_all add: distinct_bump)

lemma distinct_countFields: "distinct (map fst (countFields traces))"
proof -
  have "distinct (map fst obj) \<Longrightarrow>
        distinct (map fst (fold (\<lambda>t obj. fold bump (firstInputFields t) obj) traces obj))" for obj
    by (induction traces arbitrary: obj) (simp_all add: distinct_fold_bump)
  then show ?thesis
    by (simp add: countFields_def)
qed

lemma classify_required:
  "set (contract_required (classifyFields n entries c))
   = set (contract_required c) \<union> {f. \<exists>count. (f, count) \<in> set entries \<and> 9 / 10 < rat_of_nat count / rat_of_nat n}"
  by (induction n entries c rule: classifyFields.induct) (auto simp: Let_def)


lemma entry_counted:
  assumes "distinct (map fst obj)"
  shows "(\<exists>count. (f, count) \<in> set obj \<and> P count) = (\<exists>count. map_of obj f = Some count \<and> P count)"
  using assms by (auto simp: map_of_eq_Some_iff)

lemma required_iff_share:
  "(f \<in> set (contract_required (extractInputContract traces))) = (9 / 10 < share traces f)"
proof -
  have "(f \<in> set (contract_required (extractInputContract traces)))
        = (\<exists>count. map_of (countFields traces) f = Some count
                   \<and> 9 / 10 < rat_of_nat count / rat_of_nat (length traces))"
    by (simp add: extractInputContract_def classify_required
          entry_counted [OF distinct_countFields])
  also have "\<dots> = (9 / 10 < rat_of_nat (counted (countFields traces) f) / rat_of_nat (length traces))"
    by (cases "map_of (countFields traces) f") (simp_all add: counted_def)
  finally show ?thesis
    by (simp add: share_def counted_countFields)
qed


lemma failed_check_invalid:
  "contract_required (wf_inputContract w) = [] \<Longrightarrow> \<not> valid (verifyWorkflow s w)"
  by (simp add: verifyWorkflow_def Let_def checkEntries_def)

lemma unreachable_invalid:
  "\<not> checkReachability w \<Longrightarrow> \<not> valid (verifyWorkflow s w)"
  by (simp add: verifyWorkflow_def Let_def checkEntries_def)




text \<open>
  C9. Verification declares a workflow invalid whenever its input contract has no
  required field, whatever the other checks say; and when no field appears in the
  first-task input of more than 90% of the traces, \<^verbatim>\<open>synthesizeWorkflow\<close> returns
  \<^verbatim>\<open>null\<close>, so nothing is deployed.
\<close>

theorem no_required_field_never_deployed:
  "(contract_required (wf_inputContract w) = [] \<longrightarrow> \<not> valid (verifyWorkflow s w))
   \<and> ((\<forall>f. share traces f \<le> 9 / 10) \<longrightarrow> synthesizeWorkflow s p traces = None)"
proof (intro conjI impI)
  assume "contract_required (wf_inputContract w) = []"
  then show "\<not> valid (verifyWorkflow s w)"
    by (rule failed_check_invalid)
next
  assume low: "\<forall>f. share traces f \<le> 9 / 10"
  have "set (contract_required (extractInputContract traces)) = {}"
  proof (rule equals0I)
    fix f
    assume "f \<in> set (contract_required (extractInputContract traces))"
    then have "9 / 10 < share traces f"
      by (simp only: required_iff_share)
    with low show False
      by (simp add: not_less [symmetric])
  qed
  then have "contract_required (wf_inputContract (buildWorkflow p traces)) = []"
    by (simp add: buildWorkflow_def)
  then have "\<not> valid (verifyWorkflow s (buildWorkflow p traces))"
    by (rule failed_check_invalid)
  then show "synthesizeWorkflow s p traces = None"
    by (simp add: synthesizeWorkflow_def Let_def)
qed

lemma share_twoTraces: "share twoTraces f \<le> 9 / 10"
proof -
  have "appearances twoTraces f \<le> 1"
    by (simp add: appearances_def twoTraces_def fieldTrace_def firstInputFields_def object_keys_def)
  then have "rat_of_nat (appearances twoTraces f) \<le> 1"
    by (metis of_nat_1 of_nat_le_iff)
  then show ?thesis
    by (simp add: share_def twoTraces_def)
qed

theorem no_required_field_never_deployed_witness:
  "contract_required (wf_inputContract (buildWorkflow backEdgePattern twoTraces)) = []
   \<and> \<not> valid (verifyWorkflow (newSynthesizer None) (buildWorkflow backEdgePattern twoTraces))
   \<and> (\<forall>f. share twoTraces f \<le> 9 / 10)
   \<and> synthesizeWorkflow (newSynthesizer None) backEdgePattern twoTraces = None"
proof -
  have req: "contract_required (wf_inputContract (buildWorkflow backEdgePattern twoTraces)) = []"
    by code_simp
  show ?thesis
    using no_required_field_never_deployed
            [of "buildWorkflow backEdgePattern twoTraces" "newSynthesizer None"
                twoTraces backEdgePattern]
          req share_twoTraces
    by blast
qed

subsection \<open>Structural verification (C1, C4, C10)\<close>

text \<open>
  C1. The claim: a workflow with a back-edge among its goto or choice transitions is
  rejected, and a branch whose every option goes to an earlier position is rejected as a
  cycle. \<^verbatim>\<open>detectCycles\<close> follows \<^verbatim>\<open>state.goto\<close> only, never \<^verbatim>\<open>state.choices\<close>
  (which \<^verbatim>\<open>checkReachability\<close> does follow). For \<open>backEdgePattern\<close> the compiled state
  \<open>A\<close> goes to \<open>choice_1\<close> and \<open>choice_1\<close> has the option to go back to \<open>A\<close>; no cycle is
  reported, every check passes and the workflow is returned. For \<open>allBackPattern\<close> the
  only option goes back to \<open>A\<close>; the check \<open>noCycles\<close> still passes and the workflow is
  rejected for \<open>allStatesReachable\<close> alone.
\<close>

theorem choice_back_edge_not_detected:
  "goto_pushed (map_of (generateStates backEdgePattern) ''A'') = [''choice_1'']
   \<and> choices_pushed (map_of (generateStates backEdgePattern) ''choice_1'') = [''A'', ''C'']
   \<and> detectCycles (buildWorkflow backEdgePattern [fieldTrace [''q'']]) = False
   \<and> valid (verifyWorkflow (newSynthesizer None) (buildWorkflow backEdgePattern [fieldTrace [''q'']]))
   \<and> synthesizeWorkflow (newSynthesizer None) backEdgePattern [fieldTrace [''q'']]
       = Some (buildWorkflow backEdgePattern [fieldTrace [''q'']])
   \<and> choices_pushed (map_of (generateStates allBackPattern) ''choice_1'') = [''A'']
   \<and> noCycles (ver_checks (verifyWorkflow (newSynthesizer None)
                               (buildWorkflow allBackPattern [fieldTrace [''q'']])))
   \<and> reason (verifyWorkflow (newSynthesizer None) (buildWorkflow allBackPattern [fieldTrace [''q'']]))
       = ''allStatesReachable''"
  by code_simp

text \<open>
  C4. The claim: a workflow with a declared state that cannot be reached from the start
  state fails verification. \<^verbatim>\<open>checkReachability\<close> compares the number of visited names
  with the number of declared states, and a name that is no state counts as visited. In
  the workflow compiled from \<open>repeatedTaskPattern\<close> the second task \<open>A\<close> overwrites the
  first, so no transition leads to the declared state \<open>B\<close>; the traversal visits the three
  states \<open>input_validation\<close>, \<open>A\<close>, \<open>choice_3\<close> and the two names \<open>X\<close>, \<open>Y\<close> that are no
  states, five names for five declared states, and the workflow is accepted.
\<close>

theorem unreachable_state_accepted:
  "map fst (generateStates repeatedTaskPattern) = [''input_validation'', ''A'', ''B'', ''choice_3'', ''end'']
   \<and> transitions (generateStates repeatedTaskPattern)
       = [(''input_validation'', [''A'']), (''A'', [''choice_3'']), (''B'', [''A'']),
          (''choice_3'', [''X'', ''Y'', ''end'']), (''end'', [])]
   \<and> bfs_loop (generateStates repeatedTaskPattern) [''input_validation''] []
       = [''input_validation'', ''A'', ''choice_3'', ''X'', ''Y'']
   \<and> checkReachability (buildWorkflow repeatedTaskPattern [fieldTrace [''q'']])
   \<and> valid (verifyWorkflow (newSynthesizer None) (buildWorkflow repeatedTaskPattern [fieldTrace [''q'']]))
   \<and> synthesizeWorkflow (newSynthesizer None) repeatedTaskPattern [fieldTrace [''q'']]
       = Some (buildWorkflow repeatedTaskPattern [fieldTrace [''q'']])"
  by code_simp

lemma statesLoop_lookup:
  assumes "\<forall>node \<in> set nodes. node_taskName node \<noteq> ''BRANCH'' \<longrightarrow> node_taskName node \<noteq> k"
      and "\<forall>i. k \<noteq> ''choice_'' @ string_of_nat i"
  shows "map_of (statesLoop p nodes index sts) k = map_of sts k"
  using assms
  by (induction nodes arbitrary: index sts) (auto simp: Let_def update_conv')

lemma statesLoop_keys: "fst ` set sts \<subseteq> fst ` set (statesLoop p nodes index sts)"
proof (induction nodes arbitrary: index sts)
  case Nil
  show ?case by simp
next
  case (Cons node rest)
  obtain k v where step: "statesLoop p (node # rest) index sts
                          = statesLoop p rest (index + 1) (AList.update k v sts)"
    by (cases "node_taskName node = ''BRANCH''") (simp_all add: Let_def)
  have "fst ` set sts \<subseteq> fst ` set (AList.update k v sts)"
    by (auto simp: dom_update)
  also have "\<dots> \<subseteq> fst ` set (statesLoop p rest (index + 1) (AList.update k v sts))"
    by (rule Cons.IH)
  finally show ?case
    by (simp only: step)
qed

lemma string_of_nat_0: "string_of_nat 0 = ''0''"
  by (simp add: string_of_nat.simps)

lemma branch_first_keys:
  assumes "consensusSequence p = first # rest" and "node_taskName first = ''BRANCH''"
  shows "{''input_validation'', ''choice_0'', ''end''} \<subseteq> fst ` set (generateStates p)"
proof -
  let ?sts = "AList.update ''choice_0'' (choiceState p 0 (case rest of [] \<Rightarrow> None | nx # _ \<Rightarrow> Some nx))
                [(''input_validation'', validationState p)]"
  have "fst ` set ?sts \<subseteq> fst ` set (statesLoop p rest 1 ?sts)"
    by (rule statesLoop_keys)
  moreover have "statesLoop p (consensusSequence p) 0 [(''input_validation'', validationState p)]
                 = statesLoop p rest 1 ?sts"
    using assms by (simp add: Let_def string_of_nat_0)
  ultimately have "{''input_validation'', ''choice_0''}
      \<subseteq> fst ` set (statesLoop p (consensusSequence p) 0 [(''input_validation'', validationState p)])"
    by (auto simp: dom_update)
  then show ?thesis
    by (auto simp: generateStates_def dom_update)
qed

lemma branch_first_size:
  assumes "consensusSequence p = first # rest" and "node_taskName first = ''BRANCH''"
  shows "3 \<le> length (object_keys (generateStates p))"
proof -
  have "card {''input_validation'', ''choice_0'', ''end''} \<le> card (fst ` set (generateStates p))"
    by (rule card_mono) (simp, rule branch_first_keys [OF assms])
  moreover have "card {''input_validation'', ''choice_0'', ''end''} = 3"
    by simp
  ultimately show ?thesis
    by (simp add: object_keys_def length_remdups_card_conv)
qed

lemma branch_first_bfs:
  assumes "consensusSequence p = first # rest" and "node_taskName first = ''BRANCH''"
      and "\<forall>node \<in> set (consensusSequence p). node_taskName node \<noteq> ''input_validation''"
  shows "bfs_loop (generateStates p) [''input_validation''] [] = [''input_validation'', ''BRANCH'']"
proof -
  have iv: "map_of (generateStates p) ''input_validation'' = Some (validationState p)"
    using assms(3) by (simp add: generateStates_def update_conv' statesLoop_lookup)
  have br: "map_of (generateStates p) ''BRANCH'' = None"
    by (simp add: generateStates_def update_conv' statesLoop_lookup)
  have goto: "goto_pushed (Some (validationState p)) = [''BRANCH'']"
    using assms(1,2) by (simp add: goto_pushed_def validationState_def taskName_or_end_def)
  have ch: "choices_pushed (Some (validationState p)) = []"
    by (simp add: choices_pushed_def validationState_def)
  have n: "goto_pushed None = []" "choices_pushed None = []"
    by (simp_all add: goto_pushed_def choices_pushed_def)
  show ?thesis
    by (simp add: iv br goto ch n)
qed

text \<open>
  C10, as claimed: for every pattern whose first node is a branch, \<^verbatim>\<open>synthesizeWorkflow\<close>
  returns \<^verbatim>\<open>null\<close>. This fails when task nodes bear the names of compiler states:
  in \<open>collidingPattern\<close> the task \<open>input_validation\<close> overwrites the validation state and
  the task \<open>choice_0\<close> overwrites the choice state, the three remaining states are all
  visited, and the workflow is returned.
\<close>

theorem branch_first_deployed:
  "map node_taskName (consensusSequence collidingPattern) = [''BRANCH'', ''input_validation'', ''choice_0'']
   \<and> map fst (generateStates collidingPattern) = [''input_validation'', ''choice_0'', ''end'']
   \<and> synthesizeWorkflow (newSynthesizer None) collidingPattern [fieldTrace [''q'']]
       = Some (buildWorkflow collidingPattern [fieldTrace [''q'']])"
  by code_simp

text \<open>
  C10, amended: for every pattern whose first node is a branch and in which no node is
  named \<open>input_validation\<close>, \<^verbatim>\<open>synthesizeWorkflow\<close> returns \<^verbatim>\<open>null\<close>, whatever the
  traces and the confidence: the validation state goes to the name \<open>BRANCH\<close>, which is no
  state, so the traversal visits two names while at least three states are declared.
\<close>

theorem branch_first_returns_null:
  assumes "consensusSequence p = first # rest" and "node_taskName first = ''BRANCH''"
      and "\<forall>node \<in> set (consensusSequence p). node_taskName node \<noteq> ''input_validation''"
  shows "synthesizeWorkflow s p traces = None"
proof -
  have "\<not> checkReachability (buildWorkflow p traces)"
    using branch_first_size [OF assms(1,2)] branch_first_bfs [OF assms]
    by (simp add: checkReachability_def buildWorkflow_def)
  then show ?thesis
    by (simp add: synthesizeWorkflow_def Let_def unreachable_invalid)
qed

theorem branch_first_returns_null_witness:
  "map node_taskName (consensusSequence branchFirstPattern) = [''BRANCH'', ''A'']
   \<and> synthesizeWorkflow (newSynthesizer None) branchFirstPattern [fieldTrace [''q'']] = None"
  using branch_first_returns_null [of branchFirstPattern "branchNode 0 [(''X'', 1), (''Y'', 1)]"
      "[mkTaskNode 1 ''A'' 1]" "newSynthesizer None" "[fieldTrace [''q'']]"]
  by (simp add: branchFirstPattern_def branchNode_def mkTaskNode_def taskNode_def)

subsection \<open>The router (C7, C8)\<close>















text \<open>
  C8. The claim: an update adds one to \<open>\<alpha>\<close> or \<open>\<beta>\<close> of the arm used, leaves every other
  arm unchanged, and updates commute. For a query pattern without a stored item,
  \<^verbatim>\<open>loadStats\<close> returns \<^verbatim>\<open>{ ...this.priors }\<close>, whose entries are the prior objects
  themselves, so the increment changes the router's prior. On a new router, one success
  for \<open>synthesized\<close> under pattern \<open>q1\<close> changes what the \<open>synthesized\<close> arm of the untouched
  pattern \<open>q2\<close> reads from (1,1) to (2,1); one success for each of \<open>q1\<close> and \<open>q2\<close> leaves the
  arm of \<open>q2\<close> at (3,1) in one order and at (2,1) in the other.
\<close>

theorem updates_of_fresh_patterns_do_not_commute:
  "armStats newRouter ''q2'' ''synthesized'' = Some \<lparr>alpha = Some (Num 1), beta = Some (Num 1)\<rparr>
   \<and> armStats (updateStats newRouter ''q1'' ''synthesized'' True) ''q2'' ''synthesized''
       = Some \<lparr>alpha = Some (Num 2), beta = Some (Num 1)\<rparr>
   \<and> armStats (updateStats (updateStats newRouter ''q1'' ''synthesized'' True) ''q2'' ''synthesized'' True)
        ''q2'' ''synthesized'' = Some \<lparr>alpha = Some (Num 3), beta = Some (Num 1)\<rparr>
   \<and> armStats (updateStats (updateStats newRouter ''q2'' ''synthesized'' True) ''q1'' ''synthesized'' True)
        ''q2'' ''synthesized'' = Some \<lparr>alpha = Some (Num 2), beta = Some (Num 1)\<rparr>"
  by code_simp

end
